theory Spec2Isabelle
  imports
    Main
    "HOL-Library.Sublist"
    "HOL-Library.Char_ord"
    "HOL-Library.List_Lexorder"
    "HOL-Library.Product_Lexorder"
    "HOL-Library.Code_Target_Nat"
    "HOL-Library.Multiset"
begin

section \<open>Weekend shift extraction (backend/scripts/debug\_jan26.py)\<close>

text \<open>
  The script reads two calendar exports, expands every event that starts in January or
  February 2026 into its Saturdays and Sundays, and prints a sorted table. The model
  follows the script function by function. Text is a \<open>string\<close>, one \<open>char\<close> per
  code point (code points below 256); exceptions are values of \<open>error\<close>; standard
  output is the list of the strings handed to \<open>print\<close>.
\<close>

subsection \<open>Exceptions\<close>

datatype error = ValueError | OverflowError

subsection \<open>The datetime values the script uses\<close>

text \<open>
  Only the date part of a \<open>datetime\<close> is ever set: \<open>strptime\<close> with \<open>%Y%m%d\<close>
  leaves the time at midnight and every \<open>timedelta\<close> is a whole day. The attribute
  \<open>day\<close> is called \<open>mday\<close> here, \<open>day\<close> being a key of the records below.
\<close>

datatype datetime = Datetime (year: nat) (month: nat) (mday: nat)

definition is_leap :: "nat \<Rightarrow> bool" where
  "is_leap y = (y mod 4 = 0 \<and> (y mod 100 \<noteq> 0 \<or> y mod 400 = 0))"

definition days_in_month :: "nat \<Rightarrow> nat \<Rightarrow> nat" where
  "days_in_month y m =
     (if m = 2 then (if is_leap y then 29 else 28)
      else if m = 4 \<or> m = 6 \<or> m = 9 \<or> m = 11 then 30
      else 31)"

definition valid_date :: "datetime \<Rightarrow> bool" where
  "valid_date d =
     (1 \<le> year d \<and> year d \<le> 9999 \<and> 1 \<le> month d \<and> month d \<le> 12 \<and>
      1 \<le> mday d \<and> mday d \<le> days_in_month (year d) (month d))"

text \<open>The proleptic Gregorian ordinal (\<open>toordinal\<close>): 0001-01-01 is day 1.\<close>

definition days_before_year :: "nat \<Rightarrow> nat" where
  "days_before_year y = (y - 1) * 365 + (y - 1) div 4 - (y - 1) div 100 + (y - 1) div 400"

fun days_before_month :: "nat \<Rightarrow> nat \<Rightarrow> nat" where
  "days_before_month y 0 = 0"
| "days_before_month y (Suc 0) = 0"
| "days_before_month y (Suc (Suc k)) = days_before_month y (Suc k) + days_in_month y (Suc k)"

definition toordinal :: "datetime \<Rightarrow> nat" where
  "toordinal d = days_before_year (year d) + days_before_month (year d) (month d) + mday d"

text \<open>\<open>weekday()\<close>: Monday is 0, Saturday 5, Sunday 6.\<close>

definition weekday :: "datetime \<Rightarrow> nat" where
  "weekday d = (toordinal d + 6) mod 7"

text \<open>Comparison of two datetimes is the comparison of their fields in order.\<close>

definition dt_key :: "datetime \<Rightarrow> nat \<times> nat \<times> nat" where
  "dt_key d = (year d, month d, mday d)"

definition dt_le :: "datetime \<Rightarrow> datetime \<Rightarrow> bool" where
  "dt_le a b = (dt_key a \<le> dt_key b)"

definition dt_less :: "datetime \<Rightarrow> datetime \<Rightarrow> bool" where
  "dt_less a b = (dt_key a < dt_key b)"

text \<open>
  \<open>d + timedelta(days=1)\<close> is the next calendar day and \<open>d - timedelta(days=1)\<close> the
  previous one; leaving the range 0001-01-01 .. 9999-12-31 raises \<open>OverflowError\<close>.
\<close>

definition add_day :: "datetime \<Rightarrow> error + datetime" where
  "add_day d =
     (if mday d < days_in_month (year d) (month d)
        then Inr (Datetime (year d) (month d) (mday d + 1))
      else if month d < 12 then Inr (Datetime (year d) (month d + 1) 1)
      else if year d < 9999 then Inr (Datetime (year d + 1) 1 1)
      else Inl OverflowError)"

definition sub_day :: "datetime \<Rightarrow> error + datetime" where
  "sub_day d =
     (if 1 < mday d then Inr (Datetime (year d) (month d) (mday d - 1))
      else if 1 < month d
        then Inr (Datetime (year d) (month d - 1) (days_in_month (year d) (month d - 1)))
      else if 1 < year d then Inr (Datetime (year d - 1) 12 31)
      else Inl OverflowError)"

subsection \<open>Parsing and printing dates\<close>

definition is_digit :: "char \<Rightarrow> bool" where
  "is_digit c = (CHR ''0'' \<le> c \<and> c \<le> CHR ''9'')"

definition digit_val :: "char \<Rightarrow> nat" where
  "digit_val c = of_char c - 48"

fun int_of_digits :: "nat \<Rightarrow> string \<Rightarrow> nat" where
  "int_of_digits acc [] = acc"
| "int_of_digits acc (c # cs) = int_of_digits (acc * 10 + digit_val c) cs"

text \<open>
  \<open>datetime.strptime(s, '%Y%m%d')\<close> on the eight digits the regular expressions capture:
  four digits of year, two of month, two of day. The month must be 01..12 and the day
  must exist in that month; year 0000 is rejected as well. Every failure is a
  \<open>ValueError\<close>. The script passes nothing but an eight-digit group.
\<close>

definition strptime :: "string \<Rightarrow> error + datetime" where
  "strptime s =
     (if length s = 8 \<and> list_all is_digit s then
        (let d = Datetime (int_of_digits 0 (take 4 s))
                          (int_of_digits 0 (take 2 (drop 4 s)))
                          (int_of_digits 0 (drop 6 s))
         in if valid_date d then Inr d else Inl ValueError)
      else Inl ValueError)"

definition digit_char :: "nat \<Rightarrow> char" where
  "digit_char n = char_of (48 + n mod 10)"

fun str_nat :: "nat \<Rightarrow> string" where
  "str_nat n = (if n < 10 then [digit_char n] else str_nat (n div 10) @ [digit_char n])"

definition zero_pad :: "nat \<Rightarrow> string \<Rightarrow> string" where
  "zero_pad w s = replicate (w - length s) CHR ''0'' @ s"

text \<open>
  \<open>strftime('%Y-%m-%d')\<close>. Every date the script formats has a four-digit year (it is
  not before the year 2026), where all platforms agree.
\<close>

definition strftime :: "datetime \<Rightarrow> string" where
  "strftime d =
     zero_pad 4 (str_nat (year d)) @ ''-'' @ zero_pad 2 (str_nat (month d)) @ ''-'' @
     zero_pad 2 (str_nat (mday d))"

subsection \<open>String operations and the three regular expressions\<close>

text \<open>\<open>str.strip()\<close>: the white space among the code points below 256.\<close>

definition is_space :: "char \<Rightarrow> bool" where
  "is_space c =
     (let n = (of_char c :: nat)
      in (9 \<le> n \<and> n \<le> 13) \<or> (28 \<le> n \<and> n \<le> 32) \<or> n = 133 \<or> n = 160)"

definition strip :: "string \<Rightarrow> string" where
  "strip s = rev (dropWhile is_space (rev (dropWhile is_space s)))"

text \<open>
  \<open>content.split(sep)\<close> for a non-empty separator: the pieces between the occurrences
  of \<open>sep\<close>, found left to right without overlap. \<open>cur\<close> holds the current piece,
  reversed.
\<close>

fun split_from :: "string \<Rightarrow> string \<Rightarrow> string \<Rightarrow> string list" where
  "split_from sep cur [] = [rev cur]"
| "split_from sep cur (c # cs) =
     (if prefix sep (c # cs) then rev cur # split_from sep [] (drop (length sep - 1) cs)
      else split_from sep (c # cur) cs)"

definition split :: "string \<Rightarrow> string \<Rightarrow> string list" where
  "split s sep = split_from sep [] s"

text \<open>
  \<open>re.search(r'SUMMARY:(.*)', evt)\<close>: the leftmost \<open>SUMMARY:\<close>; group 1 is the rest of
  that line (\<open>.\<close> matches everything but the newline). The result is group 1.
\<close>

fun search_summary :: "string \<Rightarrow> string option" where
  "search_summary [] = None"
| "search_summary (c # cs) =
     (if prefix ''SUMMARY:'' (c # cs)
        then Some (takeWhile (\<lambda>x. x \<noteq> CHR 0x0A) (drop 8 (c # cs)))
      else search_summary cs)"

text \<open>
  \<open>KEY(?:;VALUE=DATE)?:(\d{8})\<close> matched at the front of a string: the optional group
  is tried first, then the match without it.
\<close>

definition match_colon_date :: "string \<Rightarrow> string option" where
  "match_colon_date s =
     (if prefix '':'' s \<and> 9 \<le> length s \<and> list_all is_digit (take 8 (drop 1 s))
        then Some (take 8 (drop 1 s)) else None)"

definition match_date_here :: "string \<Rightarrow> string \<Rightarrow> string option" where
  "match_date_here key s =
     (if prefix key s then
        (let r = drop (length key) s
         in case (if prefix '';VALUE=DATE'' r then match_colon_date (drop 11 r) else None) of
              Some g \<Rightarrow> Some g
            | None \<Rightarrow> match_colon_date r)
      else None)"

text \<open>\<open>re.search\<close> tries the positions from left to right; the result is group 1.\<close>

fun search_date :: "string \<Rightarrow> string \<Rightarrow> string option" where
  "search_date key [] = match_date_here key []"
| "search_date key (c # cs) =
     (case match_date_here key (c # cs) of
        Some g \<Rightarrow> Some g
      | None \<Rightarrow> search_date key cs)"

subsection \<open>One event block\<close>

text \<open>A bound on the number of days from a date to the end of the calendar.\<close>

definition days_left :: "datetime \<Rightarrow> nat" where
  "days_left c = (9999 - year c) * 416 + (12 - month c) * 32 + (31 - mday c)"

record shift_record =
  date :: string
  day :: string
  name :: string
  shift :: string

text \<open>
  Lines 67-77, the loop \<open>while current <= end_date\<close>. Each step moves \<open>current\<close> to the
  next day, so the loop ends at the latest when the calendar does.
\<close>

function expand :: "string \<Rightarrow> string \<Rightarrow> datetime \<Rightarrow> datetime \<Rightarrow> shift_record list
     \<Rightarrow> error + shift_record list" where
  "expand summary shift_name current end_date results =
     (if dt_le current end_date then
        (let dow = weekday current;
             results' = (if dow = 5 \<or> dow = 6
                then results @ [\<lparr>date = strftime current,
                                 day = (if dow = 6 then ''Sun'' else ''Sat''),
                                 name = summary, shift = shift_name\<rparr>]
                else results)
         in case add_day current of
              Inl e \<Rightarrow> Inl e
            | Inr next \<Rightarrow> expand summary shift_name next end_date results')
      else Inr results)"
  by pat_completeness auto

termination
proof (relation "measure (\<lambda>(s, t, c, e, r). days_left c)", goal_cases)
  case 1
  show ?case by simp
next
  case (2 summary shift_name current end_date results dow results' next_day)
  have "days_in_month (year current) (month current) \<le> 31"
    by (simp add: days_in_month_def)
  with 2 show ?case
    by (auto simp: add_day_def days_left_def split: if_splits)
qed

declare expand.simps [simp del]

text \<open>
  Lines 62-65: the last day of the range. An end date is exclusive, so one day is taken
  off; this \<open>strptime\<close> is outside every \<open>try\<close>.
\<close>

definition end_date_of :: "string \<Rightarrow> datetime \<Rightarrow> error + datetime" where
  "end_date_of evt start_date =
     (case search_date ''DTEND'' evt of
        Some g \<Rightarrow> (case strptime g of Inl e \<Rightarrow> Inl e | Inr d \<Rightarrow> sub_day d)
      | None \<Rightarrow> Inr start_date)"

text \<open>
  Lines 38-77, the body of \<open>for evt in events[1:]\<close>: \<open>continue\<close> leaves
  \<open>results\<close> as it is; an exception leaves the function.
\<close>

definition event_step :: "string \<Rightarrow> string \<Rightarrow> shift_record list \<Rightarrow> error + shift_record list" where
  "event_step shift_name evt results =
     (let summary_m = search_summary evt;
          start_m = search_date ''DTSTART'' evt
      in case summary_m of
           None \<Rightarrow> Inr results
         | Some g \<Rightarrow>
        (case start_m of
           None \<Rightarrow> Inr results
         | Some start_str \<Rightarrow>
        (let summary = strip g
         in if sublist ''OOO'' summary \<or> CHR ''+'' \<in> set summary then Inr results
            else
              (case strptime start_str of
                 Inl ValueError \<Rightarrow> Inr results
               | Inl e \<Rightarrow> Inl e
               | Inr start_date \<Rightarrow>
                   if year start_date \<noteq> 2026 then Inr results
                   else if month start_date > 2 then Inr results
                   else
                     (case end_date_of evt start_date of
                        Inl e \<Rightarrow> Inl e
                      | Inr end_date \<Rightarrow>
                          expand summary shift_name start_date end_date results)))))"

fun process_events :: "string \<Rightarrow> string list \<Rightarrow> shift_record list \<Rightarrow> error + shift_record list" where
  "process_events shift_name [] results = Inr results"
| "process_events shift_name (evt # evts) results =
     (case event_step shift_name evt results of
        Inl e \<Rightarrow> Inl e
      | Inr results' \<Rightarrow> process_events shift_name evts results')"

subsection \<open>Files, paths and the log\<close>

text \<open>
  A path of the file system either does not exist, or holds a file that reads as a text,
  or one whose \<open>open\<close> or \<open>read\<close> raises (the message of the exception is kept).
\<close>

datatype file_node = Readable string | Unreadable string

type_synonym filesystem = "string \<Rightarrow> file_node option"

definition MIGRATE_DIR :: string where
  "MIGRATE_DIR = ''../../migrate''"

definition join_step :: "string \<Rightarrow> string \<Rightarrow> string" where
  "join_step path b =
     (if prefix ''/'' b then b
      else if path = [] \<or> suffix ''/'' path then path @ b
      else path @ ''/'' @ b)"

definition os_path_join :: "string \<Rightarrow> string list \<Rightarrow> string" where
  "os_path_join a p = foldl join_step a p"

definition log :: "string \<Rightarrow> string" where
  "log msg = ''[DEBUG] '' @ msg"

text \<open>Lines 32-80: everything after the file has been read.\<close>

definition parse_content :: "string \<Rightarrow> string \<Rightarrow> string list \<times> (error + shift_record list)" where
  "parse_content content shift_name =
     (let events = split content ''BEGIN:VEVENT'';
          l1 = log (''Found '' @ str_nat (length events) @ '' event blocks'')
      in case process_events shift_name (tl events) [] of
           Inl e \<Rightarrow> ([l1], Inl e)
         | Inr results \<Rightarrow>
             ([l1, log (''-> Extracted '' @ str_nat (length results) @ '' weekend shifts'')],
              Inr results))"

text \<open>Lines 24-80: \<open>except Exception\<close> covers every failure of \<open>open\<close> and \<open>read\<close>.\<close>

definition parse_file :: "filesystem \<Rightarrow> string \<Rightarrow> string \<Rightarrow> string
     \<Rightarrow> string list \<times> (error + shift_record list)" where
  "parse_file fs file_path filename shift_name =
     (let l0 = log (''Reading '' @ filename)
      in case fs file_path of
           Some (Readable content) \<Rightarrow>
             (let (ls, r) = parse_content content shift_name in (l0 # ls, r))
         | Some (Unreadable e) \<Rightarrow> ([l0, log (''Error reading file: '' @ e)], Inr [])
         | None \<Rightarrow>
             ([l0, log (''Error reading file: [Errno 2] No such file or directory: '' @
                        [CHR 0x27] @ file_path @ [CHR 0x27])], Inr []))"

text \<open>
  \<open>parse_ics\<close>; \<open>script_dir\<close> is \<open>os.path.dirname(__file__)\<close>. The result is the
  lines logged and either the exception that left the function or the list returned.
\<close>

definition parse_ics :: "filesystem \<Rightarrow> string \<Rightarrow> string \<Rightarrow> string
     \<Rightarrow> string list \<times> (error + shift_record list)" where
  "parse_ics fs script_dir filename shift_name =
     (let file_path = os_path_join script_dir [MIGRATE_DIR, filename]
      in if fs file_path = None then
           (let l1 = log (''File not found: '' @ file_path);
                file_path' = os_path_join ''/Users/bishwash/Documents/GitHub/ShiftPlanner/migrate''
                               [filename]
            in if fs file_path' = None
                 then ([l1, log (''Still not found: '' @ file_path')], Inr [])
               else (let (ls, r) = parse_file fs file_path' filename shift_name
                     in (l1 # ls, r)))
         else parse_file fs file_path filename shift_name)"

subsection \<open>The driver\<close>

definition sort_key_of :: "shift_record \<Rightarrow> string \<times> string" where
  "sort_key_of x = (date x, shift x)"

definition row :: "shift_record \<Rightarrow> string" where
  "row r = date r @ '' | '' @ day r @ '' | '' @ shift r @ ''    | '' @ name r"

definition table_header :: "string list" where
  "table_header =
     [CHR 0x0A # ''Date       | Day | Shift | Name'', ''-----------|-----|-------|------'']"

text \<open>
  Lines 82-92. The result is what was printed and the exception that ended the run, if
  any; \<open>all_ops\<close> is the list after \<open>all_ops.sort\<close>, a stable sort.
\<close>

definition all_ops :: "filesystem \<Rightarrow> string \<Rightarrow> string list \<times> (error + shift_record list)" where
  "all_ops fs script_dir =
     (let (ls1, r1) = parse_ics fs script_dir ''AMR AM Analysts.ics'' ''AM''
      in case r1 of
           Inl e \<Rightarrow> (ls1, Inl e)
         | Inr ops1 \<Rightarrow>
             (let (ls2, r2) = parse_ics fs script_dir ''AMR PM Analysts.ics'' ''PM''
              in case r2 of
                   Inl e \<Rightarrow> (ls1 @ ls2, Inl e)
                 | Inr ops2 \<Rightarrow> (ls1 @ ls2, Inr (sort_key sort_key_of ([] @ ops1 @ ops2)))))"

definition driver :: "filesystem \<Rightarrow> string \<Rightarrow> string list \<times> error option" where
  "driver fs script_dir =
     (let (ls, r) = all_ops fs script_dir
      in case r of
           Inl e \<Rightarrow> (''Starting analysis...'' # ls, Some e)
         | Inr ops \<Rightarrow> (''Starting analysis...'' # ls @ table_header @ map row ops, None))"

subsection \<open>Notions used in the statements\<close>

text \<open>The record that the loop appends for a day \<open>d\<close> (lines 71-76).\<close>

definition weekend_record :: "string \<Rightarrow> string \<Rightarrow> datetime \<Rightarrow> shift_record" where
  "weekend_record summary shift_name d =
     \<lparr>date = strftime d, day = (if weekday d = 6 then ''Sun'' else ''Sat''),
      name = summary, shift = shift_name\<rparr>"

definition is_weekend :: "datetime \<Rightarrow> bool" where
  "is_weekend d = (weekday d = 5 \<or> weekday d = 6)"




text \<open>Event blocks and files used as concrete inputs.\<close>

definition friday_block :: string where
  "friday_block = ''\<newline>SUMMARY:Alice\<newline>DTSTART;VALUE=DATE:20260102\<newline>END:VEVENT\<newline>''"

definition friday_to_tuesday_block :: string where
  "friday_to_tuesday_block =
     ''\<newline>SUMMARY:Alice\<newline>DTSTART;VALUE=DATE:20260102\<newline>DTEND;VALUE=DATE:20260106\<newline>END:VEVENT\<newline>''"

definition no_summary_block :: string where
  "no_summary_block = ''\<newline>DTSTART;VALUE=DATE:20260103\<newline>END:VEVENT\<newline>''"

definition ooo_block :: string where
  "ooo_block = ''\<newline>SUMMARY:Alice OOO\<newline>DTSTART;VALUE=DATE:20260103\<newline>END:VEVENT\<newline>''"

definition march_block :: string where
  "march_block = ''\<newline>SUMMARY:Alice\<newline>DTSTART;VALUE=DATE:20260307\<newline>END:VEVENT\<newline>''"

definition same_day_block :: string where
  "same_day_block =
     ''\<newline>SUMMARY:Alice\<newline>DTSTART;VALUE=DATE:20260103\<newline>DTEND;VALUE=DATE:20260103\<newline>END:VEVENT\<newline>''"

definition first_day_end_block :: string where
  "first_day_end_block =
     ''\<newline>SUMMARY:Alice\<newline>DTSTART;VALUE=DATE:20260103\<newline>DTEND;VALUE=DATE:00010101\<newline>END:VEVENT\<newline>''"

definition bad_end_block :: string where
  "bad_end_block =
     ''\<newline>SUMMARY:Alice\<newline>DTSTART;VALUE=DATE:20260103\<newline>DTEND;VALUE=DATE:20260230\<newline>END:VEVENT\<newline>''"

definition bad_start_block :: string where
  "bad_start_block =
     ''\<newline>SUMMARY:Alice\<newline>DTSTART;VALUE=DATE:20260230\<newline>DTEND;VALUE=DATE:20260302\<newline>END:VEVENT\<newline>''"


definition am_path :: string where
  "am_path = ''../../migrate/AMR AM Analysts.ics''"


definition calendar_of :: "string list \<Rightarrow> string" where
  "calendar_of blocks =
     ''BEGIN:VCALENDAR\<newline>'' @ concat (map (\<lambda>b. ''BEGIN:VEVENT'' @ b) blocks) @
     ''END:VCALENDAR\<newline>''"

definition bad_end_fs :: filesystem where
  "bad_end_fs = [am_path \<mapsto> Readable (calendar_of [friday_to_tuesday_block, bad_end_block])]"

definition bad_start_fs :: filesystem where
  "bad_start_fs = [am_path \<mapsto> Readable (calendar_of [friday_to_tuesday_block, bad_start_block])]"




section \<open>Properties\<close>

subsection \<open>Calendar arithmetic\<close>

lemma days_in_month_le_31: "days_in_month y m \<le> 31"
  by (simp add: days_in_month_def)

lemma days_in_month_pos: "0 < days_in_month y m"
  by (simp add: days_in_month_def)

lemma dt_le_refl: "dt_le a a"
  by (simp add: dt_le_def)

lemma dt_less_le_trans: "dt_less a b \<Longrightarrow> dt_le b c \<Longrightarrow> dt_less a c"
  unfolding dt_less_def dt_le_def by (rule less_le_trans)

lemma dt_le_less_trans: "dt_le a b \<Longrightarrow> dt_less b c \<Longrightarrow> dt_less a c"
  unfolding dt_less_def dt_le_def by (rule le_less_trans)

lemma dt_le_trans: "dt_le a b \<Longrightarrow> dt_le b c \<Longrightarrow> dt_le a c"
  unfolding dt_le_def by (rule order_trans)

lemma dt_less_imp_le: "dt_less a b \<Longrightarrow> dt_le a b"
  unfolding dt_less_def dt_le_def by (rule less_imp_le)

lemma dt_not_le: "(\<not> dt_le a b) = dt_less b a"
  unfolding dt_less_def dt_le_def by (rule not_le)

lemma dt_key_inj: "dt_key a = dt_key b \<Longrightarrow> a = b"
  by (cases a; cases b) (simp add: dt_key_def)

lemma dt_le_iff: "dt_le a b = (dt_less a b \<or> a = b)"
  unfolding dt_less_def dt_le_def using dt_key_inj by (auto simp: le_less)

lemma add_day_valid:
  assumes "valid_date c" "add_day c = Inr n"
  shows "valid_date n"
  using assms days_in_month_pos [of "year c" "Suc (month c)"] days_in_month_pos [of "Suc (year c)" 1]
  by (auto simp: add_day_def valid_date_def split: if_splits)

lemma add_day_less:
  assumes "add_day c = Inr n"
  shows "dt_less c n"
  using assms by (auto simp: add_day_def dt_less_def dt_key_def split: if_splits)

lemma add_day_least:
  assumes "valid_date c" "add_day c = Inr n" "valid_date x" "dt_less c x"
  shows "dt_le n x"
  using assms
  by (cases "year x = year c"; cases "month x = month c")
     (auto simp: add_day_def dt_less_def dt_le_def dt_key_def valid_date_def split: if_splits)

lemma add_day_defined:
  assumes "valid_date c" "dt_less c (Datetime 9999 12 31)"
  shows "\<exists>n. add_day c = Inr n"
proof -
  have "days_in_month 9999 12 = 31"
    by (simp add: days_in_month_def)
  with assms show ?thesis
    by (auto simp: add_day_def dt_less_def dt_key_def valid_date_def)
qed

lemma sub_day_valid:
  assumes "valid_date e" "sub_day e = Inr p"
  shows "valid_date p"
  using assms days_in_month_pos [of "year e" "month e - 1"]
  by (auto simp: sub_day_def valid_date_def days_in_month_def [of _ 12] split: if_splits)

lemma sub_day_less:
  assumes "valid_date e" "sub_day e = Inr p"
  shows "dt_less p e"
  using assms
  by (auto simp: sub_day_def dt_less_def dt_key_def valid_date_def split: if_splits)

lemma sub_day_defined:
  assumes "valid_date e" "e \<noteq> Datetime 1 1 1"
  shows "\<exists>p. sub_day e = Inr p"
  using assms by (cases e) (auto simp: sub_day_def valid_date_def)

lemma sub_day_min: "sub_day (Datetime 1 1 1) = Inl OverflowError"
  by (simp add: sub_day_def)

lemma div_Suc_if: "0 < m \<Longrightarrow> Suc j div m = j div m + (if Suc j mod m = 0 then 1 else 0)"
  by (simp add: div_Suc mod_Suc)

lemma mod_0_trans: "(k::nat) dvd m \<Longrightarrow> n mod m = 0 \<Longrightarrow> n mod k = 0"
  by (meson dvd_trans mod_eq_0_iff_dvd)

lemma days_before_year_plus:
  "days_before_year (Suc j) + j div 100 = j * 365 + j div 4 + j div 400"
proof -
  have "j div 100 \<le> j div 4"
    by (simp add: div_le_mono2)
  then show ?thesis
    by (simp add: days_before_year_def)
qed

lemma days_before_year_Suc:
  assumes "0 < k"
  shows "days_before_year (Suc k) = days_before_year k + (if is_leap k then 366 else 365)"
proof -
  obtain j where k: "k = Suc j" using assms by (cases k) auto
  define A B C where "A = j div 4" and "B = j div 100" and "C = j div 400"
  define X Y where "X = days_before_year (Suc j)" and "Y = days_before_year (Suc (Suc j))"
  have a: "Suc j div 4 = A + (if Suc j mod 4 = 0 then 1 else 0)"
    unfolding A_def by (rule div_Suc_if) simp
  have b: "Suc j div 100 = B + (if Suc j mod 100 = 0 then 1 else 0)"
    unfolding B_def by (rule div_Suc_if) simp
  have c: "Suc j div 400 = C + (if Suc j mod 400 = 0 then 1 else 0)"
    unfolding C_def by (rule div_Suc_if) simp
  have e: "Suc j mod 100 = 0 \<Longrightarrow> Suc j mod 4 = 0" "Suc j mod 400 = 0 \<Longrightarrow> Suc j mod 100 = 0"
    by (rule mod_0_trans [of 4 100], simp, assumption) (rule mod_0_trans [of 100 400], simp, assumption)
  have x: "X + B = j * 365 + A + C"
    unfolding X_def A_def B_def C_def by (rule days_before_year_plus)
  have y: "Y + Suc j div 100 = Suc j * 365 + Suc j div 4 + Suc j div 400"
    unfolding Y_def by (rule days_before_year_plus)
  have "Y = X + (if is_leap (Suc j) then 366 else 365)"
  proof (cases "Suc j mod 4 = 0")
    case False
    with e(1) have h: "Suc j mod 100 \<noteq> 0" by auto
    with e(2) have "Suc j mod 400 \<noteq> 0" by auto
    with False h x y show ?thesis
      unfolding is_leap_def a b c by simp
  next
    case True
    note four = this
    show ?thesis
    proof (cases "Suc j mod 100 = 0")
      case False
      with e(2) have "Suc j mod 400 \<noteq> 0" by auto
      with False four x y show ?thesis
        unfolding is_leap_def a b c by simp
    next
      case True
      with four x y show ?thesis
        unfolding is_leap_def a b c by (cases "Suc j mod 400 = 0") simp_all
    qed
  qed
  then show ?thesis
    unfolding k X_def Y_def .
qed

lemma days_before_month_12: "days_before_month y 12 = (if is_leap y then 335 else 334)"
  by (simp add: eval_nat_numeral days_in_month_def)

lemma days_before_month_step:
  "1 < m \<Longrightarrow> days_before_month y m = days_before_month y (m - 1) + days_in_month y (m - 1)"
  by (cases "(y, m)" rule: days_before_month.cases) auto

lemma sub_day_toordinal:
  assumes "valid_date e" "sub_day e = Inr p"
  shows "toordinal p + 1 = toordinal e"
proof (cases "1 < mday e")
  case True
  with assms show ?thesis by (auto simp: sub_day_def toordinal_def)
next
  case False
  with assms have d1: "mday e = 1" by (simp add: valid_date_def)
  show ?thesis
  proof (cases "1 < month e")
    case True
    with assms d1 show ?thesis
      by (auto simp: sub_day_def toordinal_def days_before_month_step)
  next
    case False
    with assms have m1: "month e = 1" by (simp add: valid_date_def)
    from assms d1 m1 have y: "1 < year e" and p: "p = Datetime (year e - 1) 12 31"
      by (auto simp: sub_day_def split: if_splits)
    from y obtain k where k: "year e = Suc k" "0 < k" by (cases "year e") auto
    show ?thesis
      using days_before_year_Suc [OF k(2)]
      by (simp add: p k d1 m1 toordinal_def days_before_month_12)
  qed
qed

subsection \<open>The expansion loop\<close>

lemma add_day_days_left: "add_day c = Inr n \<Longrightarrow> days_left n < days_left c"
  using days_in_month_le_31 [of "year c" "month c"]
  by (auto simp: add_day_def days_left_def split: if_splits)

lemma expand_unfold:
  "expand s t c e rs =
     (if dt_le c e then
        (case add_day c of
           Inl err \<Rightarrow> Inl err
         | Inr n \<Rightarrow> expand s t n e (if is_weekend c then rs @ [weekend_record s t c] else rs))
      else Inr rs)"
  by (subst expand.simps)
     (auto simp: Let_def is_weekend_def weekend_record_def split: sum.splits)

lemma expand_days:
  assumes "valid_date c" "expand s t c e rs = Inr rs'"
  shows "\<exists>ds. rs' = rs @ map (weekend_record s t) ds \<and> sorted_wrt dt_less ds \<and>
           set ds = {d. valid_date d \<and> dt_le c d \<and> dt_le d e \<and> is_weekend d}"
  using assms
proof (induction "days_left c" arbitrary: c rs rule: less_induct)
  case less
  show ?case
  proof (cases "dt_le c e")
    case False
    then have "\<And>d. dt_le c d \<Longrightarrow> dt_le d e \<Longrightarrow> False"
      using dt_le_trans by blast
    moreover from False less.prems have "rs' = rs"
      by (simp add: expand_unfold)
    ultimately show ?thesis
      by (intro exI [of _ "[]"]) auto
  next
    case True
    with less.prems obtain n where n: "add_day c = Inr n"
      by (cases "add_day c") (auto simp: expand_unfold)
    let ?rs = "if is_weekend c then rs @ [weekend_record s t c] else rs"
    from True n less.prems have run: "expand s t n e ?rs = Inr rs'"
      by (simp add: expand_unfold)
    have vn: "valid_date n" using add_day_valid [OF less.prems(1) n] .
    from less.hyps [OF add_day_days_left [OF n] vn run]
    obtain ds where ds: "rs' = ?rs @ map (weekend_record s t) ds" "sorted_wrt dt_less ds"
      "set ds = {d. valid_date d \<and> dt_le n d \<and> dt_le d e \<and> is_weekend d}"
      by blast
    let ?ds = "(if is_weekend c then [c] else []) @ ds"
    have range: "{d. valid_date d \<and> dt_le c d \<and> dt_le d e} =
                 insert c {d. valid_date d \<and> dt_le n d \<and> dt_le d e}"
      using add_day_least [OF less.prems(1) n] add_day_less [OF n] True less.prems(1)
      by (auto simp: dt_le_iff [of c] dt_le_refl dest: dt_less_le_trans dt_less_imp_le)
    have "rs' = rs @ map (weekend_record s t) ?ds"
      using ds(1) by simp
    moreover have "sorted_wrt dt_less ?ds"
      using ds(2,3) add_day_less [OF n] by (auto dest: dt_less_le_trans)
    moreover have "set ?ds = {d. valid_date d \<and> dt_le c d \<and> dt_le d e \<and> is_weekend d}"
      using range ds(3) by auto
    ultimately show ?thesis by blast
  qed
qed

lemma expand_defined:
  assumes "valid_date c" "dt_less e (Datetime 9999 12 31)"
  shows "\<exists>rs'. expand s t c e rs = Inr rs'"
  using assms
proof (induction "days_left c" arbitrary: c rs rule: less_induct)
  case less
  show ?case
  proof (cases "dt_le c e")
    case False
    then show ?thesis by (simp add: expand_unfold)
  next
    case True
    then have "dt_less c (Datetime 9999 12 31)"
      using less.prems(2) by (rule dt_le_less_trans)
    then obtain n where n: "add_day c = Inr n"
      using add_day_defined less.prems(1) by blast
    have vn: "valid_date n" using add_day_valid [OF less.prems(1) n] .
    from less.hyps [OF add_day_days_left [OF n] vn less.prems(2)] True n show ?thesis
      by (simp add: expand_unfold)
  qed
qed


subsection \<open>One event block\<close>

lemma strptime_valid: "strptime s = Inr d \<Longrightarrow> valid_date d"
  by (auto simp: strptime_def Let_def split: if_splits)

lemma valid_date_le_max: "valid_date d \<Longrightarrow> dt_le d (Datetime 9999 12 31)"
  using days_in_month_le_31 [of "year d" "month d"]
  by (auto simp: valid_date_def dt_le_def dt_key_def)

lemma end_date_of_None: "search_date ''DTEND'' evt = None \<Longrightarrow> end_date_of evt sd = Inr sd"
  by (simp add: end_date_of_def)

lemma end_date_of_Some:
  "search_date ''DTEND'' evt = Some g \<Longrightarrow> strptime g = Inr e \<Longrightarrow> end_date_of evt sd = sub_day e"
  by (simp add: end_date_of_def)

lemma end_date_of_before_max:
  assumes "end_date_of evt sd = Inr en" "year sd = 2026"
  shows "dt_less en (Datetime 9999 12 31)"
proof (cases "search_date ''DTEND'' evt")
  case None
  with assms show ?thesis
    by (auto simp: end_date_of_def dt_less_def dt_key_def)
next
  case (Some g)
  with assms obtain e where e: "strptime g = Inr e" "sub_day e = Inr en"
    by (auto simp: end_date_of_def split: sum.splits)
  have "valid_date e" using e(1) by (rule strptime_valid)
  then show ?thesis
    using sub_day_less [OF _ e(2)] valid_date_le_max dt_less_le_trans by blast
qed

lemma event_step_passed:
  assumes "search_summary evt = Some g" "\<not> sublist ''OOO'' (strip g)" "CHR ''+'' \<notin> set (strip g)"
    and "search_date ''DTSTART'' evt = Some s" "strptime s = Inr sd"
    and "year sd = 2026" "month sd \<le> 2"
  shows "event_step shift_name evt results =
           (case end_date_of evt sd of
              Inl e \<Rightarrow> Inl e
            | Inr en \<Rightarrow> expand (strip g) shift_name sd en results)"
  using assms by (simp add: event_step_def)

lemma event_step_skip_cases:
  "search_summary evt = None \<Longrightarrow> event_step shift_name evt results = Inr results"
  "search_date ''DTSTART'' evt = None \<Longrightarrow> event_step shift_name evt results = Inr results"
  "search_summary evt = Some g \<Longrightarrow> sublist ''OOO'' (strip g) \<or> CHR ''+'' \<in> set (strip g) \<Longrightarrow>
     event_step shift_name evt results = Inr results"
  "search_date ''DTSTART'' evt = Some s \<Longrightarrow> strptime s = Inl ValueError \<Longrightarrow>
     event_step shift_name evt results = Inr results"
  "search_date ''DTSTART'' evt = Some s \<Longrightarrow> strptime s = Inr sd \<Longrightarrow> year sd \<noteq> 2026 \<or> 2 < month sd \<Longrightarrow>
     event_step shift_name evt results = Inr results"
  by (auto simp: event_step_def Let_def split: option.splits sum.splits error.splits)

lemma strptime_error: "strptime s = Inl e \<Longrightarrow> e = ValueError"
  by (auto simp: strptime_def Let_def split: if_splits)

lemma search_summary_None_iff: "search_summary evt = None \<longleftrightarrow> \<not> sublist ''SUMMARY:'' evt"
  by (induction evt) (simp_all add: sublist_Cons_right)



lemma process_events_skip:
  "event_step shift_name evt results = Inr results \<Longrightarrow>
   process_events shift_name (evt # evts) results = process_events shift_name evts results"
  by simp

lemma malformed_start_skipped:
  assumes "search_date ''DTSTART'' evt = Some s" "strptime s = Inl e"
  shows "event_step shift_name evt results = Inr results"
proof -
  from assms(2) have "strptime s = Inl ValueError"
    using strptime_error by blast
  with assms(1) show ?thesis
    by (rule event_step_skip_cases(4))
qed

subsection \<open>The whole file and the driver\<close>










subsection \<open>The concrete inputs, evaluated\<close>

lemma friday_block_eval: "event_step ''AM'' friday_block [] = Inr []"
  by code_simp

lemma friday_to_tuesday_block_eval:
  "event_step ''AM'' friday_to_tuesday_block [] =
     Inr [\<lparr>date = ''2026-01-03'', day = ''Sat'', name = ''Alice'', shift = ''AM''\<rparr>,
          \<lparr>date = ''2026-01-04'', day = ''Sun'', name = ''Alice'', shift = ''AM''\<rparr>]"
  by code_simp

lemma friday_to_tuesday_fields:
  "search_summary friday_to_tuesday_block = Some ''Alice''"
  "\<not> sublist ''OOO'' (strip ''Alice'')"
  "CHR ''+'' \<notin> set (strip ''Alice'')"
  "search_date ''DTSTART'' friday_to_tuesday_block = Some ''20260102''"
  "strptime ''20260102'' = Inr (Datetime 2026 1 2)"
  "year (Datetime 2026 1 2) = 2026"
  "month (Datetime 2026 1 2) \<le> 2"
  "end_date_of friday_to_tuesday_block (Datetime 2026 1 2) = Inr (Datetime 2026 1 5)"
  by code_simp+

lemma friday_to_tuesday_end:
  "search_date ''DTEND'' friday_to_tuesday_block = Some ''20260106''"
  "strptime ''20260106'' = Inr (Datetime 2026 1 6)"
  "sub_day (Datetime 2026 1 6) = Inr (Datetime 2026 1 5)"
  "toordinal (Datetime 2026 1 6) = 739622"
  "toordinal (Datetime 2026 1 5) = 739621"
  by code_simp+

lemma first_day_end_eval:
  "search_date ''DTSTART'' first_day_end_block = Some ''20260103''"
  "strptime ''20260103'' = Inr (Datetime 2026 1 3)"
  "search_date ''DTEND'' first_day_end_block = Some ''00010101''"
  "strptime ''00010101'' = Inr (Datetime 1 1 1)"
  "dt_le (Datetime 1 1 1) (Datetime 2026 1 3)"
  "weekday (Datetime 2026 1 3) = 5"
  "event_step ''AM'' first_day_end_block [] = Inl OverflowError"
  by code_simp+

lemma bad_end_eval:
  "event_step ''AM'' bad_end_block [] = Inl ValueError"
  "strptime ''20260230'' = Inl ValueError"
  by code_simp+

lemma bad_end_fs_eval:
  "parse_ics bad_end_fs [] ''AMR AM Analysts.ics'' ''AM'' =
     ([''[DEBUG] Reading AMR AM Analysts.ics'', ''[DEBUG] Found 3 event blocks''], Inl ValueError)"
  "driver bad_end_fs [] =
     ([''Starting analysis...'', ''[DEBUG] Reading AMR AM Analysts.ics'',
       ''[DEBUG] Found 3 event blocks''], Some ValueError)"
  by code_simp+

lemma bad_start_fs_eval:
  "snd (parse_ics bad_start_fs [] ''AMR AM Analysts.ics'' ''AM'') =
     Inr [\<lparr>date = ''2026-01-03'', day = ''Sat'', name = ''Alice'', shift = ''AM''\<rparr>,
          \<lparr>date = ''2026-01-04'', day = ''Sun'', name = ''Alice'', shift = ''AM''\<rparr>]"
  by code_simp



lemma empty_fs_eval:
  "driver Map.empty ''/srv/app/backend/scripts'' =
     ([''Starting analysis...'',
       ''[DEBUG] File not found: /srv/app/backend/scripts/../../migrate/AMR AM Analysts.ics'',
       ''[DEBUG] Still not found: /Users/bishwash/Documents/GitHub/ShiftPlanner/migrate/AMR AM Analysts.ics'',
       ''[DEBUG] File not found: /srv/app/backend/scripts/../../migrate/AMR PM Analysts.ics'',
       ''[DEBUG] Still not found: /Users/bishwash/Documents/GitHub/ShiftPlanner/migrate/AMR PM Analysts.ics'',
       ''\<newline>Date       | Day | Shift | Name'',
       ''-----------|-----|-------|------''], None)"
  by code_simp

lemma bad_start_eval: "event_step ''AM'' bad_start_block [] = Inr []"
  by code_simp

lemma same_day_eval:
  "search_date ''DTSTART'' same_day_block = Some ''20260103''"
  "strptime ''20260103'' = Inr (Datetime 2026 1 3)"
  "search_date ''DTEND'' same_day_block = Some ''20260103''"
  "strptime ''20260103'' = Inr (Datetime 2026 1 3)"
  "dt_le (Datetime 2026 1 3) (Datetime 2026 1 3)"
  "Datetime 2026 1 3 \<noteq> Datetime 1 1 1"
  by code_simp+


subsection \<open>The claims\<close>

text \<open>
  Claim C1. A malformed eight-digit date, in the start or in the end position, makes
  \<open>parse_ics\<close> skip that block only, and no exception leaves \<open>parse_ics\<close>. The script
  does this for the start date (lines 50-53): the block with \<open>DTSTART\<close> 20260230 is
  skipped and the records of the block before it are returned. It does not for the end
  date (line 63 is outside the \<open>try\<close>): with \<open>DTEND\<close> 20260230 the \<open>ValueError\<close>
  leaves \<open>parse_ics\<close>, the records of the block before it are lost and the driver stops
  before the table.
\<close>

theorem malformed_end_date_aborts:
  "event_step ''AM'' bad_start_block [] = Inr [] \<and>
   snd (parse_ics bad_start_fs [] ''AMR AM Analysts.ics'' ''AM'') =
     Inr [\<lparr>date = ''2026-01-03'', day = ''Sat'', name = ''Alice'', shift = ''AM''\<rparr>,
          \<lparr>date = ''2026-01-04'', day = ''Sun'', name = ''Alice'', shift = ''AM''\<rparr>] \<and>
   strptime ''20260230'' = Inl ValueError \<and>
   event_step ''AM'' bad_end_block [] = Inl ValueError \<and>
   parse_ics bad_end_fs [] ''AMR AM Analysts.ics'' ''AM'' =
     ([''[DEBUG] Reading AMR AM Analysts.ics'', ''[DEBUG] Found 3 event blocks''], Inl ValueError) \<and>
   driver bad_end_fs [] =
     ([''Starting analysis...'', ''[DEBUG] Reading AMR AM Analysts.ics'',
       ''[DEBUG] Found 3 event blocks''], Some ValueError)"
  using bad_start_eval bad_start_fs_eval bad_end_eval bad_end_fs_eval
  by (intro conjI)




text \<open>
  Claim C3. A block that passes the filters and has an effective last day \<open>en\<close> adds
  one record for each calendar day from the start date to \<open>en\<close>, both included, that
  is a Saturday or a Sunday, in calendar order, each with that date, the weekday label, the
  trimmed title and the shift tag. A start on Friday 2026-01-02 with no end date gives no
  record; with end date 2026-01-06 it gives the records of January 3 and January 4.
\<close>

theorem weekend_expansion:
  assumes "search_summary evt = Some g"
    and "\<not> sublist ''OOO'' (strip g)" "CHR ''+'' \<notin> set (strip g)"
    and "search_date ''DTSTART'' evt = Some s" "strptime s = Inr sd"
    and "year sd = 2026" "month sd \<le> 2"
    and "end_date_of evt sd = Inr en"
  shows "(\<exists>ds. event_step shift_name evt results =
                 Inr (results @ map (weekend_record (strip g) shift_name) ds) \<and>
              sorted_wrt dt_less ds \<and>
              set ds = {d. valid_date d \<and> dt_le sd d \<and> dt_le d en \<and> is_weekend d}) \<and>
         event_step ''AM'' friday_block [] = Inr [] \<and>
         event_step ''AM'' friday_to_tuesday_block [] =
           Inr [\<lparr>date = ''2026-01-03'', day = ''Sat'', name = ''Alice'', shift = ''AM''\<rparr>,
                \<lparr>date = ''2026-01-04'', day = ''Sun'', name = ''Alice'', shift = ''AM''\<rparr>]"
proof -
  have v: "valid_date sd" using assms(5) by (rule strptime_valid)
  have step: "event_step shift_name evt results = expand (strip g) shift_name sd en results"
    using event_step_passed [OF assms(1-7)] assms(8) by simp
  obtain rs' where rs': "expand (strip g) shift_name sd en results = Inr rs'"
    using expand_defined [OF v end_date_of_before_max [OF assms(8,6)]] by blast
  from expand_days [OF v rs'] step rs' have
    "\<exists>ds. event_step shift_name evt results =
                 Inr (results @ map (weekend_record (strip g) shift_name) ds) \<and>
              sorted_wrt dt_less ds \<and>
              set ds = {d. valid_date d \<and> dt_le sd d \<and> dt_le d en \<and> is_weekend d}"
    by auto
  then show ?thesis
    using friday_block_eval friday_to_tuesday_block_eval by blast
qed

theorem weekend_expansion_witness:
  "\<exists>ds. event_step ''AM'' friday_to_tuesday_block [] =
          Inr ([] @ map (weekend_record (strip ''Alice'') ''AM'') ds) \<and>
        sorted_wrt dt_less ds \<and>
        set ds = {d. valid_date d \<and> dt_le (Datetime 2026 1 2) d \<and> dt_le d (Datetime 2026 1 5) \<and>
                     is_weekend d}"
  using friday_to_tuesday_fields
  by (rule weekend_expansion [THEN conjunct1])

text \<open>
  Claim C4. Without an end-date field the effective last day is the start date. With an
  end-date field that parses to \<open>e\<close> it is \<open>e - timedelta(days=1)\<close>: the valid date
  whose ordinal is one less, which exists for every \<open>e\<close> but 0001-01-01.
\<close>

theorem effective_last_day:
  "(search_date ''DTEND'' evt = None \<longrightarrow> end_date_of evt start_date = Inr start_date) \<and>
   (\<forall>g e. search_date ''DTEND'' evt = Some g \<and> strptime g = Inr e \<longrightarrow>
      end_date_of evt start_date = sub_day e \<and>
      (\<forall>p. sub_day e = Inr p \<longrightarrow> valid_date p \<and> toordinal p + 1 = toordinal e) \<and>
      (e \<noteq> Datetime 1 1 1 \<longrightarrow> (\<exists>p. sub_day e = Inr p)))"
proof (intro conjI)
  show "search_date ''DTEND'' evt = None \<longrightarrow> end_date_of evt start_date = Inr start_date"
    by (simp add: end_date_of_None)
  show "\<forall>g e. search_date ''DTEND'' evt = Some g \<and> strptime g = Inr e \<longrightarrow>
      end_date_of evt start_date = sub_day e \<and>
      (\<forall>p. sub_day e = Inr p \<longrightarrow> valid_date p \<and> toordinal p + 1 = toordinal e) \<and>
      (e \<noteq> Datetime 1 1 1 \<longrightarrow> (\<exists>p. sub_day e = Inr p))"
  proof (intro allI impI, elim conjE)
    fix g e
    assume g: "search_date ''DTEND'' evt = Some g" and e: "strptime g = Inr e"
    have v: "valid_date e" using e by (rule strptime_valid)
    have "end_date_of evt start_date = sub_day e"
      using g e by (rule end_date_of_Some)
    moreover have "\<forall>p. sub_day e = Inr p \<longrightarrow> valid_date p \<and> toordinal p + 1 = toordinal e"
      using v sub_day_valid sub_day_toordinal by blast
    moreover have "e \<noteq> Datetime 1 1 1 \<longrightarrow> (\<exists>p. sub_day e = Inr p)"
      using v sub_day_defined by blast
    ultimately show "end_date_of evt start_date = sub_day e \<and>
      (\<forall>p. sub_day e = Inr p \<longrightarrow> valid_date p \<and> toordinal p + 1 = toordinal e) \<and>
      (e \<noteq> Datetime 1 1 1 \<longrightarrow> (\<exists>p. sub_day e = Inr p))"
      by blast
  qed
qed

theorem effective_last_day_witness:
  "end_date_of friday_block (Datetime 2026 1 2) = Inr (Datetime 2026 1 2) \<and>
   end_date_of friday_to_tuesday_block (Datetime 2026 1 2) = Inr (Datetime 2026 1 5) \<and>
   toordinal (Datetime 2026 1 5) + 1 = toordinal (Datetime 2026 1 6)"
proof -
  have none: "search_date ''DTEND'' friday_block = None"
    by code_simp
  note a = effective_last_day [of friday_block "Datetime 2026 1 2", THEN conjunct1, rule_format, OF none]
  note b = effective_last_day [of friday_to_tuesday_block "Datetime 2026 1 2", THEN conjunct2,
      rule_format, OF conjI, OF friday_to_tuesday_end(1,2)]
  from a b friday_to_tuesday_end(3) show ?thesis
    by simp
qed

text \<open>
  Claim C5. A block whose trimmed summary contains \<open>OOO\<close> or the character \<open>+\<close>
  adds no record, whatever its dates are: the loop goes on to the next block with
  \<open>results\<close> unchanged.
\<close>

theorem excluded_summary_skipped:
  assumes "search_summary evt = Some g"
    and "sublist ''OOO'' (strip g) \<or> CHR ''+'' \<in> set (strip g)"
  shows "event_step shift_name evt results = Inr results \<and>
         process_events shift_name (evt # evts) results = process_events shift_name evts results"
  using assms event_step_skip_cases(3) process_events_skip by blast

theorem excluded_summary_skipped_witness:
  "event_step ''AM'' ooo_block [] = Inr [] \<and>
   process_events ''AM'' (ooo_block # [friday_to_tuesday_block]) [] =
     process_events ''AM'' [friday_to_tuesday_block] []"
proof -
  have s: "search_summary ooo_block = Some ''Alice OOO''"
    by code_simp
  have "sublist ''OOO'' (strip ''Alice OOO'')"
    by code_simp
  then have "sublist ''OOO'' (strip ''Alice OOO'') \<or> CHR ''+'' \<in> set (strip ''Alice OOO'')"
    by (rule disjI1)
  with s show ?thesis
    by (rule excluded_summary_skipped)
qed

text \<open>
  Claim C6. A block whose start date parses to a year other than 2026, or to 2026 with a
  month after February, adds no record.
\<close>

theorem out_of_window_skipped:
  assumes "search_date ''DTSTART'' evt = Some s" "strptime s = Inr sd"
    and "year sd \<noteq> 2026 \<or> (year sd = 2026 \<and> 2 < month sd)"
  shows "event_step shift_name evt results = Inr results \<and>
         process_events shift_name (evt # evts) results = process_events shift_name evts results"
proof -
  from assms(3) have "year sd \<noteq> 2026 \<or> 2 < month sd" by blast
  with assms(1,2) have "event_step shift_name evt results = Inr results"
    by (rule event_step_skip_cases(5))
  then show ?thesis
    using process_events_skip by blast
qed

theorem out_of_window_skipped_witness:
  "event_step ''AM'' march_block [] = Inr [] \<and>
   process_events ''AM'' (march_block # [friday_to_tuesday_block]) [] =
     process_events ''AM'' [friday_to_tuesday_block] []"
proof -
  have a: "search_date ''DTSTART'' march_block = Some ''20260307''"
    and b: "strptime ''20260307'' = Inr (Datetime 2026 3 7)"
    and c: "year (Datetime 2026 3 7) = 2026 \<and> 2 < month (Datetime 2026 3 7)"
    by code_simp+
  from c have "year (Datetime 2026 3 7) \<noteq> 2026 \<or>
      (year (Datetime 2026 3 7) = 2026 \<and> 2 < month (Datetime 2026 3 7))"
    by (rule disjI2)
  with a b show ?thesis
    by (rule out_of_window_skipped)
qed



text \<open>
  Claim C8. A block in which the summary pattern or the start-date pattern finds nothing
  adds no record and raises nothing: the loop goes on to the next block with \<open>results\<close>
  unchanged.
\<close>

theorem missing_field_skipped:
  assumes "search_summary evt = None \<or> search_date ''DTSTART'' evt = None"
  shows "event_step shift_name evt results = Inr results \<and>
         process_events shift_name (evt # evts) results = process_events shift_name evts results"
  using assms event_step_skip_cases(1,2) process_events_skip by blast

theorem missing_field_skipped_witness:
  "event_step ''AM'' no_summary_block [] = Inr [] \<and>
   process_events ''AM'' (no_summary_block # [friday_to_tuesday_block]) [] =
     process_events ''AM'' [friday_to_tuesday_block] []"
proof -
  have "search_summary no_summary_block = None"
    by code_simp
  then have "search_summary no_summary_block = None \<or> search_date ''DTSTART'' no_summary_block = None"
    by (rule disjI1)
  then show ?thesis
    by (rule missing_field_skipped)
qed



text \<open>
  Claim C10, amended. When the end date parses to a day that is not after the start date
  and is not 0001-01-01, the effective last day is before the start date, the loop body
  never runs and the block adds no record, also when the start date is a Saturday or a
  Sunday.
\<close>

theorem end_not_after_start:
  assumes "search_date ''DTSTART'' evt = Some s" "strptime s = Inr sd"
    and "search_date ''DTEND'' evt = Some g" "strptime g = Inr e"
    and "dt_le e sd" "e \<noteq> Datetime 1 1 1"
  shows "\<exists>en. end_date_of evt sd = Inr en \<and> dt_less en sd \<and>
              expand summary shift_name sd en results = Inr results \<and>
              event_step shift_name evt results = Inr results"
proof -
  have v: "valid_date e" using assms(4) by (rule strptime_valid)
  obtain en where en: "sub_day e = Inr en"
    using sub_day_defined [OF v assms(6)] by blast
  have 1: "end_date_of evt sd = Inr en"
    using end_date_of_Some [OF assms(3,4)] en by simp
  have 2: "dt_less en sd"
    using sub_day_less [OF v en] assms(5) by (rule dt_less_le_trans)
  then have n: "\<not> dt_le sd en" by (simp add: dt_not_le)
  then have 3: "\<And>t. expand t shift_name sd en results = Inr results"
    by (simp add: expand_unfold)
  have 4: "event_step shift_name evt results = Inr results"
    using assms(1,2) 1 3
    by (auto simp: event_step_def Let_def split: option.splits sum.splits error.splits)
  from 1 2 3 4 show ?thesis by blast
qed

theorem end_not_after_start_witness:
  "\<exists>en. end_date_of same_day_block (Datetime 2026 1 3) = Inr en \<and> dt_less en (Datetime 2026 1 3) \<and>
         expand ''Alice'' ''AM'' (Datetime 2026 1 3) en [] = Inr [] \<and>
         event_step ''AM'' same_day_block [] = Inr []"
  using same_day_eval by (rule end_not_after_start)

text \<open>
  For the end date 0001-01-01 the property fails: that end date parses and is not after
  the start date 2026-01-03 (a Saturday), but taking one day off it raises
  \<open>OverflowError\<close>, which leaves \<open>parse_ics\<close>; there is no effective last day and
  the loop over the blocks does not go on.
\<close>

theorem end_not_after_start_counterexample:
  "search_date ''DTSTART'' first_day_end_block = Some ''20260103'' \<and>
   strptime ''20260103'' = Inr (Datetime 2026 1 3) \<and>
   search_date ''DTEND'' first_day_end_block = Some ''00010101'' \<and>
   strptime ''00010101'' = Inr (Datetime 1 1 1) \<and>
   dt_le (Datetime 1 1 1) (Datetime 2026 1 3) \<and>
   weekday (Datetime 2026 1 3) = 5 \<and>
   event_step ''AM'' first_day_end_block [] = Inl OverflowError"
  using first_day_end_eval by blast

end
